theory Spec2Isabelle
  imports Main
begin

section \<open>Strings, numbers and regular expressions of the JavaScript source\<close>

text \<open>
  A JavaScript string is modelled as a \<open>string\<close> (a list of 8-bit characters), that is,
  the strings whose UTF-16 code units are all below 256. \<open>length\<close> is then the
  \<open>.length\<close> of the source. Wall-clock time (\<open>Date.now()\<close>) is an \<open>int\<close>, in
  milliseconds since the epoch, and is a parameter \<open>now\<close> of every operation of the
  authentication manager that reads the clock: such an operation is synchronous and all of
  its clock reads see the same instant. The cart functions take one parameter for each
  clock read.
  A date written with \<open>toISOString()\<close> and read back with \<open>new Date(_).getTime()\<close>
  is the same number of milliseconds, so stored ISO dates are modelled by that number.
\<close>

text \<open>The class \<open>\s\<close> of a regular expression, which is also the white space that
  \<open>String.prototype.trim\<close> removes (code units below 256).\<close>

definition isSpace :: "char \<Rightarrow> bool" where
  "isSpace c = (c \<in> set [CHR 0x09, CHR 0x0A, CHR 0x0B, CHR 0x0C, CHR 0x0D, CHR 0x20, CHR 0xA0])"

text \<open>The class \<open>\d\<close>; \<open>\D\<close> is its complement.\<close>

definition isDigit :: "char \<Rightarrow> bool" where
  "isDigit c = (c \<in> set ''0123456789'')"

definition trim :: "string \<Rightarrow> string" where
  "trim s = rev (dropWhile isSpace (rev (dropWhile isSpace s)))"

text \<open>\<open>toLowerCase\<close> on code units below 256: the letters A-Z and the Latin-1 capitals
  (0xC0-0xDE without the multiplication sign 0xD7) move up by 32.\<close>

definition toLowerChar :: "char \<Rightarrow> char" where
  "toLowerChar c =
     (let n = (of_char c :: nat)
      in if (65 \<le> n \<and> n \<le> 90) \<or> (192 \<le> n \<and> n \<le> 222 \<and> n \<noteq> 215)
         then char_of (n + 32) else c)"

definition toLowerCase :: "string \<Rightarrow> string" where
  "toLowerCase s = map toLowerChar s"

text \<open>\<open>Number.prototype.toString()\<close> of an integer (decimal digits, a leading minus
  sign for a negative number).\<close>

fun digits :: "nat \<Rightarrow> string" where
  "digits n =
     (if n < 10 then [''0123456789'' ! n]
      else digits (n div 10) @ [''0123456789'' ! (n mod 10)])"

declare digits.simps [simp del]

definition toString :: "int \<Rightarrow> string" where
  "toString i = (if i < 0 then CHR ''-'' # digits (nat (- i)) else digits (nat i))"

text \<open>
  The two regular expressions of the source are anchored sequences of character classes,
  each taken once, a fixed number of times (\<open>{n}\<close>) or one or more times (\<open>+\<close>).
  \<open>test\<close> on such an expression is a backtracking match of the whole string.
\<close>

datatype quantifier = Times nat | OneOrMore

type_synonym regex = "((char \<Rightarrow> bool) \<times> quantifier) list"

fun test :: "regex \<Rightarrow> string \<Rightarrow> bool" where
  "test [] s = (s = [])"
| "test ((p, Times 0) # r) s = test r s"
| "test ((p, Times (Suc n)) # r) [] = False"
| "test ((p, Times (Suc n)) # r) (c # s) = (p c \<and> test ((p, Times n) # r) s)"
| "test ((p, OneOrMore) # r) [] = False"
| "test ((p, OneOrMore) # r) (c # s) = (p c \<and> (test ((p, OneOrMore) # r) s \<or> test r s))"

text \<open>\<open>/^[^\s@]+@[^\s@]+\.[^\s@]+$/\<close>\<close>

definition notSpaceAt :: "char \<Rightarrow> bool" where
  "notSpaceAt c = (\<not> isSpace c \<and> c \<noteq> CHR ''@'')"

definition emailRegex :: regex where
  "emailRegex =
     [(notSpaceAt, OneOrMore), (\<lambda>c. c = CHR ''@'', Times 1),
      (notSpaceAt, OneOrMore), (\<lambda>c. c = CHR ''.'', Times 1),
      (notSpaceAt, OneOrMore)]"

text \<open>\<open>/^[6-9]\d{9}$/\<close>\<close>

definition phoneRegex :: regex where
  "phoneRegex = [(\<lambda>c. c \<in> set ''6789'', Times 1), (isDigit, Times 9)]"

definition isValidEmail :: "string \<Rightarrow> bool" where
  "isValidEmail email = test emailRegex email"

text \<open>\<open>phone.replace(/\D/g, '')\<close> keeps the digits of \<open>phone\<close>.\<close>

definition isValidPhone :: "string \<Rightarrow> bool" where
  "isValidPhone phone = test phoneRegex (filter isDigit phone)"

text \<open>\<open>Array.prototype.findIndex\<close>: the first index whose element satisfies the
  predicate, or \<open>-1\<close>. \<open>Array.prototype.find\<close> is \<^const>\<open>find\<close> of the list library,
  with \<open>None\<close> for \<open>undefined\<close>.\<close>

primrec findIndex :: "('a \<Rightarrow> bool) \<Rightarrow> 'a list \<Rightarrow> int" where
  "findIndex P [] = - 1"
| "findIndex P (x # xs) =
     (if P x then 0 else (let i = findIndex P xs in if i = - 1 then - 1 else i + 1))"


section \<open>Data model\<close>

text \<open>
  The objects of the source are records with the fields the source gives them; a field name
  carries the record's name as a prefix, since several objects share \<open>id\<close>, \<open>name\<close> and
  \<open>email\<close>. An address is free-form; \<open>addUserAddress\<close> assigns its \<open>id\<close> and
  \<open>createdAt\<close>. An order is an opaque payload.
\<close>

record address =
  address_fields :: "(string \<times> string) list"
  address_id :: "string option"
  address_createdAt :: "int option"

type_synonym order = string

record profile =
  addresses :: "address list"
  orders :: "order list"
  preferences :: "(string \<times> string) list"

text \<open>An identity, as \<open>register\<close> builds it (\<open>newUser\<close>).\<close>

record user =
  user_id :: string
  user_name :: string
  user_email :: string
  user_phone :: string
  user_password :: string
  user_createdAt :: int
  user_profile :: profile

text \<open>
  The session object \<open>this.currentUser\<close>. \<open>login\<close> builds it with the four fields
  \<open>id\<close>, \<open>name\<close>, \<open>email\<close> and \<open>loginTime\<close>. It is a plain object, and the spread
  \<open>{...this.currentUser, ...updates}\<close> of \<open>updateUserProfile\<close> can give it the other
  keys of an identity: these are the optional fields, \<open>None\<close> while the key is absent.
\<close>

record session =
  session_id :: string
  session_name :: string
  session_email :: string
  session_loginTime :: int
  session_phone :: "string option"
  session_password :: "string option"
  session_createdAt :: "int option"
  session_profile :: "profile option"

text \<open>
  The \<open>updates\<close> argument of \<open>updateUserProfile\<close>: an object with any of the keys of
  an identity. The callers in the source pass \<open>{ password: newPassword }\<close> or a whole
  identity.
\<close>

record updates =
  upd_id :: "string option"
  upd_name :: "string option"
  upd_email :: "string option"
  upd_phone :: "string option"
  upd_password :: "string option"
  upd_createdAt :: "int option"
  upd_profile :: "profile option"

text \<open>The registration input \<open>userData\<close>.\<close>

record userData =
  reg_name :: string
  reg_email :: string
  reg_phone :: string
  reg_password :: string
  reg_confirmPassword :: string

text \<open>The reset-token object \<open>resetData\<close>.\<close>

record resetData =
  reset_email :: string
  reset_token :: string
  reset_expires :: int
  reset_userId :: string

text \<open>A cart line \<open>{ name, price, image, quantity }\<close>. A quantity is a number of the
  source with an integer value; the source adds to it in double precision, see \<open>plusOne\<close>
  below.\<close>

record cartItem =
  item_name :: string
  item_price :: int
  item_image :: string
  item_quantity :: int

text \<open>
  The state: the two fields of the \<open>AuthManager\<close> instance and the keys of
  \<open>localStorage\<close> that the source uses (\<open>None\<close> for an absent key). A stored value is
  the value that \<open>JSON.parse\<close> gives back from the stored text. \<open>ls_cart_user\<close> maps an
  identifier \<open>i\<close> to the value under the key \<open>cart_i\<close>.
\<close>

record state =
  currentUser :: "session option"
  users :: "user list"
  ls_users :: "user list option"
  ls_currentUser :: "session option"
  ls_rememberMe :: "string option"
  ls_rememberedUser :: "string option"
  ls_passwordResetToken :: "resetData option"
  ls_cart :: "cartItem list option"
  ls_cart_user :: "string \<rightharpoonup> cartItem list"

text \<open>The result objects \<open>{ success, message, ... }\<close> and \<open>{ valid, message }\<close> /
  \<open>{ valid, email }\<close>, with the payload of a success.\<close>

datatype 'a result = Failure string | Success string 'a

datatype 'a validation = Invalid string | Valid 'a

section \<open>The authentication manager (src/auth.js)\<close>

definition saveUsers :: "state \<Rightarrow> state" where
  "saveUsers s = s\<lparr>ls_users := Some (users s)\<rparr>"

text \<open>
  \<open>logout\<close> ends with \<open>updateUI\<close>, which only reads the state and writes to the page:
  its call of \<open>isLoggedIn\<close> finds \<open>currentUser\<close> null.
\<close>

definition logout :: "state \<Rightarrow> state" where
  "logout s = s\<lparr>currentUser := None, ls_currentUser := None, ls_rememberMe := None\<rparr>"

definition validateSession :: "int \<Rightarrow> state \<Rightarrow> bool \<times> state" where
  "validateSession now s =
     (case currentUser s of
        Some cu \<Rightarrow>
          (let sessionAge = now - session_loginTime cu;
               maxSessionAge = 24 * 60 * 60 * 1000
           in if sessionAge > maxSessionAge then (False, logout s) else (True, s))
      | None \<Rightarrow> (False, s))"

definition isLoggedIn :: "int \<Rightarrow> state \<Rightarrow> bool \<times> state" where
  "isLoggedIn now s = (if currentUser s \<noteq> None then validateSession now s else (False, s))"

definition validateRegistrationData :: "userData \<Rightarrow> unit validation" where
  "validateRegistrationData userData =
     (if reg_name userData = [] \<or> length (trim (reg_name userData)) < 2
      then Invalid ''Name must be at least 2 characters long''
      else if reg_email userData = [] \<or> \<not> isValidEmail (reg_email userData)
      then Invalid ''Please enter a valid email address''
      else if reg_phone userData = [] \<or> \<not> isValidPhone (reg_phone userData)
      then Invalid ''Please enter a valid phone number''
      else if reg_password userData = [] \<or> length (reg_password userData) < 6
      then Invalid ''Password must be at least 6 characters long''
      else if reg_password userData \<noteq> reg_confirmPassword userData
      then Invalid ''Passwords do not match''
      else Valid ())"

definition login :: "string \<Rightarrow> string \<Rightarrow> int \<Rightarrow> state \<Rightarrow> session result \<times> state" where
  "login email password now s =
     (case find (\<lambda>u. toLowerCase (user_email u) = toLowerCase email \<and> user_password u = password)
             (users s) of
        Some u \<Rightarrow>
          (let cu = \<lparr>session_id = user_id u, session_name = user_name u,
                     session_email = user_email u, session_loginTime = now,
                     session_phone = None, session_password = None,
                     session_createdAt = None, session_profile = None\<rparr>;
               s1 = s\<lparr>currentUser := Some cu, ls_currentUser := Some cu\<rparr>;
               s2 = (if ls_rememberMe s1 = Some ''true''
                     then s1\<lparr>ls_rememberedUser := Some email\<rparr> else s1)
           in (Success ''Login successful'' cu, s2))
      | None \<Rightarrow> (Failure ''Invalid email or password'', s))"

definition register :: "userData \<Rightarrow> int \<Rightarrow> state \<Rightarrow> user result \<times> state" where
  "register userData now s =
     (case validateRegistrationData userData of
        Invalid message \<Rightarrow> (Failure message, s)
      | Valid _ \<Rightarrow>
          (case find (\<lambda>u. toLowerCase (user_email u) = toLowerCase (reg_email userData))
                  (users s) of
             Some existingUser \<Rightarrow> (Failure ''An account with this email already exists'', s)
           | None \<Rightarrow>
               (let newUser = \<lparr>user_id = toString now,
                               user_name = trim (reg_name userData),
                               user_email = trim (toLowerCase (reg_email userData)),
                               user_phone = trim (reg_phone userData),
                               user_password = reg_password userData,
                               user_createdAt = now,
                               user_profile = \<lparr>addresses = [], orders = [], preferences = []\<rparr>\<rparr>;
                    s1 = saveUsers (s\<lparr>users := users s @ [newUser]\<rparr>);
                    s2 = snd (login (user_email newUser) (reg_password userData) now s1)
                in (Success ''Account created successfully'' newUser, s2))))"


text \<open>The two spreads of \<open>updateUserProfile\<close>: a key of \<open>updates\<close> replaces the key
  of the object, or is added to it.\<close>

definition merge_user :: "user \<Rightarrow> updates \<Rightarrow> user" where
  "merge_user u upd =
     \<lparr>user_id = (case upd_id upd of Some v \<Rightarrow> v | None \<Rightarrow> user_id u),
      user_name = (case upd_name upd of Some v \<Rightarrow> v | None \<Rightarrow> user_name u),
      user_email = (case upd_email upd of Some v \<Rightarrow> v | None \<Rightarrow> user_email u),
      user_phone = (case upd_phone upd of Some v \<Rightarrow> v | None \<Rightarrow> user_phone u),
      user_password = (case upd_password upd of Some v \<Rightarrow> v | None \<Rightarrow> user_password u),
      user_createdAt = (case upd_createdAt upd of Some v \<Rightarrow> v | None \<Rightarrow> user_createdAt u),
      user_profile = (case upd_profile upd of Some v \<Rightarrow> v | None \<Rightarrow> user_profile u)\<rparr>"

definition merge_session :: "session \<Rightarrow> updates \<Rightarrow> session" where
  "merge_session cu upd =
     \<lparr>session_id = (case upd_id upd of Some v \<Rightarrow> v | None \<Rightarrow> session_id cu),
      session_name = (case upd_name upd of Some v \<Rightarrow> v | None \<Rightarrow> session_name cu),
      session_email = (case upd_email upd of Some v \<Rightarrow> v | None \<Rightarrow> session_email cu),
      session_loginTime = session_loginTime cu,
      session_phone = (case upd_phone upd of Some v \<Rightarrow> Some v | None \<Rightarrow> session_phone cu),
      session_password =
        (case upd_password upd of Some v \<Rightarrow> Some v | None \<Rightarrow> session_password cu),
      session_createdAt =
        (case upd_createdAt upd of Some v \<Rightarrow> Some v | None \<Rightarrow> session_createdAt cu),
      session_profile =
        (case upd_profile upd of Some v \<Rightarrow> Some v | None \<Rightarrow> session_profile cu)\<rparr>"

definition updateUserProfile :: "string \<Rightarrow> updates \<Rightarrow> state \<Rightarrow> unit result \<times> state" where
  "updateUserProfile userId upd s =
     (let userIndex = findIndex (\<lambda>u. user_id u = userId) (users s)
      in if userIndex = - 1 then (Failure ''User not found'', s)
         else
           (let s1 = saveUsers
                  (s\<lparr>users := (users s)[nat userIndex :=
                                  merge_user (users s ! nat userIndex) upd]\<rparr>);
                s2 = (case currentUser s1 of
                        Some cu \<Rightarrow>
                          if session_id cu = userId
                          then (let cu' = merge_session cu upd
                                in s1\<lparr>currentUser := Some cu', ls_currentUser := Some cu'\<rparr>)
                          else s1
                      | None \<Rightarrow> s1)
            in (Success ''Profile updated successfully'' (), s2)))"



text \<open>\<open>{ password: newPassword }\<close>\<close>

definition password_update :: "string \<Rightarrow> updates" where
  "password_update newPassword =
     \<lparr>upd_id = None, upd_name = None, upd_email = None, upd_phone = None,
      upd_password = Some newPassword, upd_createdAt = None, upd_profile = None\<rparr>"

text \<open>\<open>rnd\<close> is the text \<open>Math.random().toString(36).substr(2, 9)\<close>.\<close>

definition requestPasswordReset :: "string \<Rightarrow> int \<Rightarrow> string \<Rightarrow> state \<Rightarrow> string result \<times> state" where
  "requestPasswordReset email now rnd s =
     (case find (\<lambda>u. toLowerCase (user_email u) = toLowerCase email) (users s) of
        None \<Rightarrow> (Failure ''No account found with this email address'', s)
      | Some u \<Rightarrow>
          (let resetToken = toString now @ rnd;
               rd = \<lparr>reset_email = email, reset_token = resetToken,
                     reset_expires = now + 15 * 60 * 1000, reset_userId = user_id u\<rparr>
           in (Success ''Password reset instructions have been sent to your email'' resetToken,
               s\<lparr>ls_passwordResetToken := Some rd\<rparr>)))"

definition resetPassword :: "string \<Rightarrow> string \<Rightarrow> int \<Rightarrow> state \<Rightarrow> unit result \<times> state" where
  "resetPassword token newPassword now s =
     (case ls_passwordResetToken s of
        None \<Rightarrow> (Failure ''Invalid or expired reset token'', s)
      | Some rd \<Rightarrow>
          if reset_token rd \<noteq> token then (Failure ''Invalid reset token'', s)
          else if now > reset_expires rd
          then (Failure ''Reset token has expired'', s\<lparr>ls_passwordResetToken := None\<rparr>)
          else if length newPassword < 6
          then (Failure ''Password must be at least 6 characters long'', s)
          else
            (case updateUserProfile (reset_userId rd) (password_update newPassword) s of
               (Success _ _, s') \<Rightarrow>
                 (Success ''Password reset successfully'' (), s'\<lparr>ls_passwordResetToken := None\<rparr>)
             | (Failure _, s') \<Rightarrow> (Failure ''Error resetting password'', s')))"

definition validateResetToken :: "string \<Rightarrow> int \<Rightarrow> state \<Rightarrow> string validation \<times> state" where
  "validateResetToken token now s =
     (case ls_passwordResetToken s of
        None \<Rightarrow> (Invalid ''Invalid or expired reset token'', s)
      | Some rd \<Rightarrow>
          if reset_token rd \<noteq> token then (Invalid ''Invalid reset token'', s)
          else if now > reset_expires rd
          then (Invalid ''Reset token has expired'', s\<lparr>ls_passwordResetToken := None\<rparr>)
          else (Valid (reset_email rd), s))"


section \<open>The cart (src/cart.js and its per-identity variant)\<close>







text \<open>
  The per-identity variant reads and writes through \<open>getUserCart\<close> and \<open>saveUserCart\<close>.
  \<open>hasAuth\<close> is the test \<open>typeof auth !== 'undefined'\<close>. \<open>auth.isLoggedIn()\<close> reads the
  clock, \<open>now\<close>, and may log an expired session out, so both return the state; when it
  answers true, \<open>currentUser\<close> is not null.
\<close>

definition getUserCart :: "bool \<Rightarrow> int \<Rightarrow> state \<Rightarrow> cartItem list \<times> state" where
  "getUserCart hasAuth now s =
     (let (loggedIn, s1) = (if hasAuth then isLoggedIn now s else (False, s))
      in case (loggedIn, currentUser s1) of
           (True, Some cu) \<Rightarrow>
             ((case ls_cart_user s1 (session_id cu) of Some c \<Rightarrow> c | None \<Rightarrow> []), s1)
         | _ \<Rightarrow> ((case ls_cart s1 of Some c \<Rightarrow> c | None \<Rightarrow> []), s1))"


text \<open>\<open>updateCartBadge\<close> of this variant calls \<open>getUserCart\<close>, which reads the clock
  once more; what it does with the cart goes to the page.\<close>

definition updateCartBadge :: "bool \<Rightarrow> int \<Rightarrow> state \<Rightarrow> state" where
  "updateCartBadge hasAuth now s = snd (getUserCart hasAuth now s)"


section \<open>Example values\<close>

text \<open>A browser with an empty \<open>localStorage\<close>, after \<open>init\<close>.\<close>

definition fresh :: state where
  "fresh = \<lparr>currentUser = None, users = [], ls_users = None, ls_currentUser = None,
            ls_rememberMe = None, ls_rememberedUser = None, ls_passwordResetToken = None,
            ls_cart = None, ls_cart_user = Map.empty\<rparr>"

definition alice :: user where
  "alice = \<lparr>user_id = ''1000'', user_name = ''Alice'', user_email = ''alice@example.com'',
            user_phone = ''9876543210'', user_password = ''secret1'', user_createdAt = 1000,
            user_profile = \<lparr>addresses = [], orders = [], preferences = []\<rparr>\<rparr>"

definition directory :: state where
  "directory = fresh\<lparr>users := [alice], ls_users := Some [alice]\<rparr>"

definition alice_again :: userData where
  "alice_again = \<lparr>reg_name = ''Alice B'', reg_email = ''Alice@Example.COM'',
     reg_phone = ''98765 43210'', reg_password = ''hunter22'', reg_confirmPassword = ''hunter22''\<rparr>"

definition alice_short_name :: userData where
  "alice_short_name = alice_again\<lparr>reg_name := ''A''\<rparr>"

text \<open>Alice logged in at millisecond 2000, with the remember-me flag set.\<close>

definition alice_session :: session where
  "alice_session = \<lparr>session_id = ''1000'', session_name = ''Alice'',
     session_email = ''alice@example.com'', session_loginTime = 2000,
     session_phone = None, session_password = None, session_createdAt = None,
     session_profile = None\<rparr>"

definition logged_in :: state where
  "logged_in = directory\<lparr>currentUser := Some alice_session,
     ls_currentUser := Some alice_session, ls_rememberMe := Some ''true'',
     ls_rememberedUser := Some ''Alice@Example.COM''\<rparr>"

text \<open>The directory with the remember-me flag set, before that login.\<close>

definition remembering :: state where
  "remembering = directory\<lparr>ls_rememberMe := Some ''true''\<rparr>"

text \<open>A reset token for Alice, requested at millisecond 2000.\<close>

definition alice_token :: resetData where
  "alice_token = \<lparr>reset_email = ''alice@example.com'', reset_token = ''2000k3j9x0q1z'',
     reset_expires = 902000, reset_userId = ''1000''\<rparr>"

definition reset_pending :: state where
  "reset_pending = directory\<lparr>ls_passwordResetToken := Some alice_token\<rparr>"


text \<open>
  Two identities created in the same millisecond have the same identifier
  (\<open>Date.now().toString()\<close>): Carol after Alice, both at millisecond 1000.
\<close>

definition carol :: user where
  "carol = \<lparr>user_id = ''1000'', user_name = ''Carol'', user_email = ''carol@example.com'',
            user_phone = ''9123456780'', user_password = ''secret2'', user_createdAt = 1000,
            user_profile = \<lparr>addresses = [], orders = [], preferences = []\<rparr>\<rparr>"

definition twins :: state where
  "twins = fresh\<lparr>users := [alice, carol], ls_users := Some [alice, carol]\<rparr>"

text \<open>
  Erin, registered later, whose email \<open>updateUserProfile\<close> has then set to Alice's:
  the email is checked for uniqueness by \<open>register\<close> only.
\<close>

definition erin :: user where
  "erin = \<lparr>user_id = ''3000'', user_name = ''Erin'', user_email = ''erin@example.com'',
           user_phone = ''9000000001'', user_password = ''secret3'', user_createdAt = 3000,
           user_profile = \<lparr>addresses = [], orders = [], preferences = []\<rparr>\<rparr>"

definition namesakes :: state where
  "namesakes =
     snd (updateUserProfile ''3000''
            \<lparr>upd_id = None, upd_name = None, upd_email = Some ''alice@example.com'',
             upd_phone = None, upd_password = None, upd_createdAt = None, upd_profile = None\<rparr>
            (fresh\<lparr>users := [alice, erin], ls_users := Some [alice, erin]\<rparr>))"

definition alice_data :: userData where
  "alice_data = \<lparr>reg_name = ''Alice'', reg_email = ''alice@example.com'',
     reg_phone = ''9876543210'', reg_password = ''secret1'', reg_confirmPassword = ''secret1''\<rparr>"

definition carol_data :: userData where
  "carol_data = \<lparr>reg_name = ''Carol'', reg_email = ''Carol@Example.com'',
     reg_phone = ''9123456780'', reg_password = ''secret2'', reg_confirmPassword = ''secret2''\<rparr>"

section \<open>The validation rules and the cart invariant, as the specification words them\<close>

text \<open>
  The five rules of a registration: a name of at least 2 characters after trimming, an email
  of the shape \<open>local@domain.tld\<close> (three non-empty parts without white space or \<open>@\<close>), a
  phone whose digits, the other characters being dropped, are exactly 10 with the first one
  from 6 to 9, a secret of at least 6 characters, and a confirmation equal to the secret.
  \<open>first_failure\<close> is the message of the first rule, in that order, that the input breaks.
\<close>

definition name_rule :: "userData \<Rightarrow> bool" where
  "name_rule d = (2 \<le> length (trim (reg_name d)))"

definition email_rule :: "userData \<Rightarrow> bool" where
  "email_rule d =
     (\<exists>local domain tld.
        reg_email d = local @ ''@'' @ domain @ ''.'' @ tld
        \<and> local \<noteq> [] \<and> domain \<noteq> [] \<and> tld \<noteq> []
        \<and> (\<forall>c \<in> set (local @ domain @ tld). \<not> isSpace c \<and> c \<noteq> CHR ''@''))"

definition phone_rule :: "userData \<Rightarrow> bool" where
  "phone_rule d =
     (let ds = filter isDigit (reg_phone d)
      in length ds = 10 \<and> hd ds \<in> set ''6789'')"

definition secret_rule :: "userData \<Rightarrow> bool" where
  "secret_rule d = (6 \<le> length (reg_password d))"

definition confirm_rule :: "userData \<Rightarrow> bool" where
  "confirm_rule d = (reg_confirmPassword d = reg_password d)"

definition first_failure :: "userData \<Rightarrow> string option" where
  "first_failure d =
     (if \<not> name_rule d then Some ''Name must be at least 2 characters long''
      else if \<not> email_rule d then Some ''Please enter a valid email address''
      else if \<not> phone_rule d then Some ''Please enter a valid phone number''
      else if \<not> secret_rule d then Some ''Password must be at least 6 characters long''
      else if \<not> confirm_rule d then Some ''Passwords do not match''
      else None)"

text \<open>A registration with a phone number that starts with 5.\<close>

definition dave_data :: userData where
  "dave_data = \<lparr>reg_name = ''Dave'', reg_email = ''dave@example.com'',
     reg_phone = ''5876543210'', reg_password = ''abc'', reg_confirmPassword = ''xyz''\<rparr>"












section \<open>Lemmas on the library functions\<close>

lemma findIndex_range: "findIndex P xs = - 1 \<or> (0 \<le> findIndex P xs \<and> findIndex P xs < int (length xs))"
  by (induction xs) (auto simp: Let_def)

lemma findIndex_none: "(findIndex P xs = - 1) = (\<forall>x \<in> set xs. \<not> P x)"
proof (induction xs)
  case Nil
  show ?case by simp
next
  case (Cons x xs)
  have "findIndex P xs \<noteq> - 1 \<Longrightarrow> findIndex P xs + 1 \<noteq> - 1"
    using findIndex_range [of P xs] by arith
  with Cons show ?case by (auto simp: Let_def)
qed

lemma findIndex_first:
  assumes "i < length xs" and "P (xs ! i)" and "\<forall>j<i. \<not> P (xs ! j)"
  shows "findIndex P xs = int i"
  using assms
proof (induction xs arbitrary: i)
  case Nil
  then show ?case by simp
next
  case (Cons x xs)
  show ?case
  proof (cases i)
    case 0
    with Cons.prems show ?thesis by simp
  next
    case (Suc k)
    have nx: "\<not> P x" using Cons.prems(3) Suc by auto
    have "findIndex P xs = int k"
    proof (rule Cons.IH)
      show "k < length xs" using Cons.prems(1) Suc by simp
      show "P (xs ! k)" using Cons.prems(2) Suc by simp
      show "\<forall>j<k. \<not> P (xs ! j)"
      proof (intro allI impI)
        fix j assume "j < k"
        then have "Suc j < i" using Suc by simp
        with Cons.prems(3) have "\<not> P ((x # xs) ! Suc j)" by blast
        then show "\<not> P (xs ! j)" by simp
      qed
    qed
    with nx Suc show ?thesis by (simp add: Let_def)
  qed
qed

lemma findIndex_hit:
  assumes "findIndex P xs \<noteq> - 1"
  shows "nat (findIndex P xs) < length xs \<and> P (xs ! nat (findIndex P xs))
           \<and> (\<forall>j < nat (findIndex P xs). \<not> P (xs ! j))
           \<and> find P xs = Some (xs ! nat (findIndex P xs))"
  using assms
proof (induction xs)
  case Nil
  then show ?case by simp
next
  case (Cons x xs)
  show ?case
  proof (cases "P x")
    case True
    then show ?thesis by simp
  next
    case False
    with Cons.prems have ne: "findIndex P xs \<noteq> - 1" by (auto simp: Let_def split: if_splits)
    have ge: "0 \<le> findIndex P xs" using findIndex_range [of P xs] ne by auto
    have eq: "nat (findIndex P (x # xs)) = Suc (nat (findIndex P xs))"
      using False ne ge by (simp add: Let_def nat_add_distrib)
    from Cons.IH [OF ne] False show ?thesis
      unfolding eq by (auto simp: less_Suc_eq_0_disj)
  qed
qed

lemma find_first:
  assumes "i < length xs" and "P (xs ! i)" and "\<forall>j<i. \<not> P (xs ! j)"
  shows "find P xs = Some (xs ! i)"
proof -
  have fi: "findIndex P xs = int i" by (rule findIndex_first [OF assms])
  then have "findIndex P xs \<noteq> - 1" by simp
  from findIndex_hit [OF this] fi show ?thesis by simp
qed

section \<open>Evaluation of the examples\<close>

lemma lower_alice:
  "toLowerCase ''Alice@Example.COM'' = ''alice@example.com''"
  "toLowerCase ''alice@example.com'' = ''alice@example.com''"
  by code_simp+

lemma valid_alice_again: "validateRegistrationData alice_again = Valid ()"
  by (simp add: validateRegistrationData_def alice_again_def trim_def isSpace_def
        isValidEmail_def emailRegex_def notSpaceAt_def isValidPhone_def phoneRegex_def isDigit_def
        eval_nat_numeral)

lemma login_alice:
  "login ''Alice@Example.COM'' ''secret1'' 2000 remembering
     = (Success ''Login successful'' alice_session, logged_in)"
  by (simp add: login_def Let_def remembering_def directory_def fresh_def alice_def lower_alice
        alice_session_def logged_in_def)

text \<open>What \<open>updateUI\<close> finds at the end of \<open>logout\<close>: nobody is logged in, and asking
  changes nothing.\<close>

lemma isLoggedIn_logout: "isLoggedIn now (logout s) = (False, logout s)"
  by (simp add: isLoggedIn_def logout_def)

section \<open>Registration with an email that is already registered\<close>

text \<open>
  C1 (as amended). When the email of the registration input belongs to a registered identity
  under the comparison of the lower-cased strings, \<open>register\<close> fails and leaves the whole
  state as it was, so the directory gains no identity and none is changed. The failure is
  the duplicate-email message when the input passes \<open>validateRegistrationData\<close>, which
  runs first; otherwise it is the message of that validation.
\<close>

theorem register_duplicate_email:
  assumes "u \<in> set (users s)"
    and "toLowerCase (user_email u) = toLowerCase (reg_email userData)"
  shows "register userData now s =
           (Failure (case validateRegistrationData userData of
                       Invalid message \<Rightarrow> message
                     | Valid _ \<Rightarrow> ''An account with this email already exists''), s)"
proof (cases "validateRegistrationData userData")
  case (Invalid m)
  then show ?thesis by (simp add: register_def)
next
  case (Valid x)
  have "find (\<lambda>u. toLowerCase (user_email u) = toLowerCase (reg_email userData)) (users s) \<noteq> None"
    using assms by (auto simp: find_None_iff)
  then show ?thesis using Valid by (auto simp: register_def)
qed

theorem register_duplicate_email_witness:
  "register alice_again 5000 directory =
     (Failure ''An account with this email already exists'', directory)"
proof -
  have "alice \<in> set (users directory)" by (simp add: directory_def)
  moreover have "toLowerCase (user_email alice) = toLowerCase (reg_email alice_again)"
    by (simp add: alice_def alice_again_def lower_alice)
  ultimately show ?thesis
    using register_duplicate_email [of alice directory alice_again 5000]
    by (simp add: valid_alice_again)
qed

text \<open>
  The claim as stated, for every registration input, fails on an input with a registered
  email and a one-letter name: the result is the validation message, not the
  duplicate-email message.
\<close>

theorem register_duplicate_email_counterexample:
  "alice \<in> set (users directory)
   \<and> toLowerCase (user_email alice) = toLowerCase (reg_email alice_short_name)
   \<and> register alice_short_name 5000 directory =
       (Failure ''Name must be at least 2 characters long'', directory)
   \<and> fst (register alice_short_name 5000 directory)
       \<noteq> Failure ''An account with this email already exists''"
  by (simp add: directory_def alice_def alice_short_name_def alice_again_def lower_alice
        register_def validateRegistrationData_def trim_def isSpace_def)

section \<open>Session validity\<close>

text \<open>
  C3. \<open>validateSession\<close> answers false without a session; with a session whose age
  \<open>now - loginTime\<close> is above 24 hours it logs out (the in-memory session and the stored
  \<open>currentUser\<close> key are gone) and answers false; otherwise it answers true and changes
  nothing. \<open>isLoggedIn\<close> answers the same. So after a successful \<open>login\<close> at \<open>t0\<close>,
  \<open>isLoggedIn\<close> at any time later than \<open>t0\<close> plus 24 hours is false and removes the
  stored session.
\<close>

theorem validateSession_expiry:
  "(currentUser s = None \<longrightarrow> validateSession now s = (False, s) \<and> isLoggedIn now s = (False, s))
   \<and> (\<forall>cu. currentUser s = Some cu \<longrightarrow>
         (if now - session_loginTime cu > 24 * 60 * 60 * 1000
          then validateSession now s = (False, logout s) \<and> isLoggedIn now s = (False, logout s)
               \<and> currentUser (logout s) = None \<and> ls_currentUser (logout s) = None
          else validateSession now s = (True, s) \<and> isLoggedIn now s = (True, s)))
   \<and> (\<forall>email password t0 m cu s1 t.
         login email password t0 s = (Success m cu, s1) \<and> t > t0 + 24 * 60 * 60 * 1000 \<longrightarrow>
         fst (isLoggedIn t s1) = False \<and> currentUser (snd (isLoggedIn t s1)) = None
         \<and> ls_currentUser (snd (isLoggedIn t s1)) = None)"
  by (auto simp: validateSession_def isLoggedIn_def logout_def login_def Let_def
           split: option.splits if_splits)

theorem validateSession_expiry_witness:
  "validateSession 86402001 logged_in = (False, logout logged_in)
   \<and> isLoggedIn 86402001 logged_in = (False, logout logged_in)
   \<and> ls_currentUser (logout logged_in) = None
   \<and> validateSession 86402000 logged_in = (True, logged_in)
   \<and> validateSession 86402001 directory = (False, directory)
   \<and> login ''Alice@Example.COM'' ''secret1'' 2000 remembering
       = (Success ''Login successful'' alice_session, logged_in)
   \<and> fst (isLoggedIn 86402001 logged_in) = False
   \<and> ls_currentUser (snd (isLoggedIn 86402001 logged_in)) = None"
proof -
  have a: "currentUser logged_in = Some alice_session" by (simp add: logged_in_def)
  have b: "currentUser directory = None" by (simp add: directory_def fresh_def)
  have t: "session_loginTime alice_session = 2000" by (simp add: alice_session_def)
  have 1: "validateSession 86402001 logged_in = (False, logout logged_in)
     \<and> isLoggedIn 86402001 logged_in = (False, logout logged_in)
     \<and> ls_currentUser (logout logged_in) = None
     \<and> validateSession 86402000 logged_in = (True, logged_in)
     \<and> validateSession 86402001 directory = (False, directory)"
    using validateSession_expiry [of logged_in 86402001]
      validateSession_expiry [of logged_in 86402000]
      validateSession_expiry [of directory 86402001] a b t
    by simp
  have l: "login ''Alice@Example.COM'' ''secret1'' 2000 remembering
             = (Success ''Login successful'' alice_session, logged_in)
           \<and> (86402001::int) > 2000 + 24 * 60 * 60 * 1000"
    by (simp add: login_alice)
  have 2: "fst (isLoggedIn 86402001 logged_in) = False
     \<and> ls_currentUser (snd (isLoggedIn 86402001 logged_in)) = None"
    using validateSession_expiry [of remembering 0] l by blast
  show ?thesis using 1 2 login_alice by simp
qed

section \<open>Login\<close>

lemma login_found:
  assumes "find (\<lambda>u. toLowerCase (user_email u) = toLowerCase email \<and> user_password u = password)
             (users s) = Some u"
  shows "\<exists>s'. login email password now s =
           (Success ''Login successful''
              \<lparr>session_id = user_id u, session_name = user_name u,
               session_email = user_email u, session_loginTime = now,
               session_phone = None, session_password = None,
               session_createdAt = None, session_profile = None\<rparr>, s')
         \<and> currentUser s' =
             Some \<lparr>session_id = user_id u, session_name = user_name u,
               session_email = user_email u, session_loginTime = now,
               session_phone = None, session_password = None,
               session_createdAt = None, session_profile = None\<rparr>
         \<and> ls_currentUser s' = currentUser s'
         \<and> users s' = users s"
  using assms by (simp add: login_def Let_def)

lemma login_not_found:
  assumes "find (\<lambda>u. toLowerCase (user_email u) = toLowerCase email \<and> user_password u = password)
             (users s) = None"
  shows "login email password now s = (Failure ''Invalid email or password'', s)"
  using assms by (simp add: login_def)

lemma isLoggedIn_fresh_session:
  assumes "currentUser s = Some cu" and "session_loginTime cu = now"
  shows "isLoggedIn now s = (True, s)"
  using assms by (simp add: isLoggedIn_def validateSession_def)

text \<open>
  C4. \<open>login\<close> succeeds exactly when some identity of the directory has the given email
  up to letter case and the given secret. A success installs the session
  \<open>{id, name, email, loginTime = now}\<close> of such an identity in memory and under the
  stored \<open>currentUser\<close> key, and \<open>isLoggedIn\<close> is true right after. Without such an
  identity the result is the one message \<open>Invalid email or password\<close>, whether the email
  is registered or not, and the state is unchanged.
\<close>

theorem login_correct:
  "((\<exists>m cu s'. login email password now s = (Success m cu, s'))
      = (\<exists>u \<in> set (users s). toLowerCase (user_email u) = toLowerCase email
                              \<and> user_password u = password))
   \<and> (\<forall>m cu s'. login email password now s = (Success m cu, s') \<longrightarrow>
         (\<exists>u \<in> set (users s). toLowerCase (user_email u) = toLowerCase email
             \<and> user_password u = password
             \<and> cu = \<lparr>session_id = user_id u, session_name = user_name u,
                      session_email = user_email u, session_loginTime = now,
                      session_phone = None, session_password = None,
                      session_createdAt = None, session_profile = None\<rparr>)
         \<and> currentUser s' = Some cu \<and> ls_currentUser s' = Some cu
         \<and> isLoggedIn now s' = (True, s'))
   \<and> ((\<forall>u \<in> set (users s). \<not> (toLowerCase (user_email u) = toLowerCase email
                                  \<and> user_password u = password)) \<longrightarrow>
         login email password now s = (Failure ''Invalid email or password'', s))"
proof (cases "find (\<lambda>u. toLowerCase (user_email u) = toLowerCase email \<and> user_password u = password)
                (users s)")
  case None
  have no: "\<forall>u \<in> set (users s). \<not> (toLowerCase (user_email u) = toLowerCase email
                                  \<and> user_password u = password)"
    using None by (simp add: find_None_iff)
  have f: "login email password now s = (Failure ''Invalid email or password'', s)"
    by (rule login_not_found [OF None])
  show ?thesis
  proof (intro conjI allI impI)
    show "(\<exists>m cu s'. login email password now s = (Success m cu, s'))
      = (\<exists>u \<in> set (users s). toLowerCase (user_email u) = toLowerCase email
                              \<and> user_password u = password)"
      using no f by simp
  qed (simp_all add: f)
next
  case (Some u)
  have u: "u \<in> set (users s)" "toLowerCase (user_email u) = toLowerCase email"
    "user_password u = password"
    using Some by (auto simp: find_Some_iff)
  from login_found [OF Some, of now] obtain s0 where
    l: "login email password now s =
           (Success ''Login successful''
              \<lparr>session_id = user_id u, session_name = user_name u,
               session_email = user_email u, session_loginTime = now,
               session_phone = None, session_password = None,
               session_createdAt = None, session_profile = None\<rparr>, s0)"
    and c: "currentUser s0 =
             Some \<lparr>session_id = user_id u, session_name = user_name u,
               session_email = user_email u, session_loginTime = now,
               session_phone = None, session_password = None,
               session_createdAt = None, session_profile = None\<rparr>"
    and p: "ls_currentUser s0 = currentUser s0"
    by blast
  have i: "isLoggedIn now s0 = (True, s0)"
    by (rule isLoggedIn_fresh_session [OF c]) simp
  show ?thesis
  proof (intro conjI allI impI)
    show "(\<exists>m cu s'. login email password now s = (Success m cu, s'))
      = (\<exists>u \<in> set (users s). toLowerCase (user_email u) = toLowerCase email
                              \<and> user_password u = password)"
      using l u by blast
  next
    fix m cu s' assume "login email password now s = (Success m cu, s')"
    with l have e: "cu = \<lparr>session_id = user_id u, session_name = user_name u,
               session_email = user_email u, session_loginTime = now,
               session_phone = None, session_password = None,
               session_createdAt = None, session_profile = None\<rparr>" "s' = s0"
      by simp_all
    show "\<exists>u \<in> set (users s). toLowerCase (user_email u) = toLowerCase email
             \<and> user_password u = password
             \<and> cu = \<lparr>session_id = user_id u, session_name = user_name u,
                      session_email = user_email u, session_loginTime = now,
                      session_phone = None, session_password = None,
                      session_createdAt = None, session_profile = None\<rparr>"
      using u e(1) by blast
    show "currentUser s' = Some cu" using c e by simp
    show "ls_currentUser s' = Some cu" using c p e by simp
    show "isLoggedIn now s' = (True, s')" using i e by simp
  next
    assume "\<forall>u \<in> set (users s). \<not> (toLowerCase (user_email u) = toLowerCase email
                                  \<and> user_password u = password)"
    with u show "login email password now s = (Failure ''Invalid email or password'', s)"
      by blast
  qed
qed

theorem login_correct_witness:
  "(\<exists>m cu s'. login ''ALICE@example.com'' ''secret1'' 2000 directory = (Success m cu, s'))
   \<and> login ''alice@example.com'' ''wrong'' 2000 directory
       = (Failure ''Invalid email or password'', directory)
   \<and> login ''nobody@example.com'' ''secret1'' 2000 directory
       = (Failure ''Invalid email or password'', directory)
   \<and> login ''Alice@Example.COM'' ''secret1'' 2000 remembering
       = (Success ''Login successful'' alice_session, logged_in)
   \<and> ls_currentUser logged_in = Some alice_session
   \<and> isLoggedIn 2000 logged_in = (True, logged_in)"
proof -
  have l: "toLowerCase ''ALICE@example.com'' = ''alice@example.com''"
    "toLowerCase ''nobody@example.com'' = ''nobody@example.com''" by code_simp+
  have u: "set (users directory) = {alice}" by (simp add: directory_def fresh_def)
  have a: "user_email alice = ''alice@example.com''" "user_password alice = ''secret1''"
    by (simp_all add: alice_def)
  have 1: "\<exists>u \<in> set (users directory). toLowerCase (user_email u) = toLowerCase ''ALICE@example.com''
             \<and> user_password u = ''secret1''"
    by (simp add: u a l lower_alice)
  have 2: "\<forall>u \<in> set (users directory). \<not> (toLowerCase (user_email u) = toLowerCase ''alice@example.com''
             \<and> user_password u = ''wrong'')"
    by (simp add: u a)
  have 3: "\<forall>u \<in> set (users directory). \<not> (toLowerCase (user_email u) = toLowerCase ''nobody@example.com''
             \<and> user_password u = ''secret1'')"
    by (simp add: u a l lower_alice)
  have 4: "ls_currentUser logged_in = Some alice_session
           \<and> isLoggedIn 2000 logged_in = (True, logged_in)"
    using login_correct [of "''Alice@Example.COM''" "''secret1''" 2000 remembering] login_alice
    by blast
  show ?thesis
    using login_correct [of "''ALICE@example.com''" "''secret1''" 2000 directory] 1
      login_correct [of "''alice@example.com''" "''wrong''" 2000 directory] 2
      login_correct [of "''nobody@example.com''" "''secret1''" 2000 directory] 3
      4 login_alice
    by blast
qed

section \<open>Reset tokens\<close>

text \<open>
  C7. With a stored reset-token record, \<open>validateResetToken\<close> on the stored token string
  fails and deletes the record when the expiry time is in the past; it returns the email of
  the record and leaves the state as it is when the token has not expired.
\<close>

theorem validateResetToken_expiry:
  assumes "ls_passwordResetToken s = Some rd"
  shows "(reset_expires rd < now \<longrightarrow>
            validateResetToken (reset_token rd) now s
              = (Invalid ''Reset token has expired'', s\<lparr>ls_passwordResetToken := None\<rparr>))
         \<and> (now \<le> reset_expires rd \<longrightarrow>
            validateResetToken (reset_token rd) now s = (Valid (reset_email rd), s))"
  using assms by (simp add: validateResetToken_def)

theorem validateResetToken_expiry_witness:
  "validateResetToken ''2000k3j9x0q1z'' 902001 reset_pending
     = (Invalid ''Reset token has expired'', reset_pending\<lparr>ls_passwordResetToken := None\<rparr>)
   \<and> validateResetToken ''2000k3j9x0q1z'' 902000 reset_pending
     = (Valid ''alice@example.com'', reset_pending)"
proof -
  have a: "ls_passwordResetToken reset_pending = Some alice_token"
    by (simp add: reset_pending_def)
  show ?thesis
    using validateResetToken_expiry [OF a, of 902001] validateResetToken_expiry [OF a, of 902000]
    by (simp add: alice_token_def)
qed

text \<open>
  C9. With a stored record that matches the token and has not expired, \<open>resetPassword\<close>
  with a new secret of fewer than 6 characters fails with the password-length message and
  leaves the whole state unchanged: the token record, the directory and every secret. The
  token is then still good: it validates, and a later \<open>resetPassword\<close> with a long enough
  secret before the expiry succeeds when the directory has the identity of the record.
\<close>

theorem resetPassword_short_secret:
  assumes "ls_passwordResetToken s = Some rd"
    and "now \<le> reset_expires rd"
    and "length newSecret < 6"
  shows "resetPassword (reset_token rd) newSecret now s
           = (Failure ''Password must be at least 6 characters long'', s)
         \<and> validateResetToken (reset_token rd) now
             (snd (resetPassword (reset_token rd) newSecret now s))
           = (Valid (reset_email rd), s)
         \<and> (\<forall>later secret. later \<le> reset_expires rd \<and> 6 \<le> length secret
               \<and> (\<exists>u \<in> set (users s). user_id u = reset_userId rd) \<longrightarrow>
               fst (resetPassword (reset_token rd) secret later
                      (snd (resetPassword (reset_token rd) newSecret now s)))
                 = Success ''Password reset successfully'' ())"
proof -
  have 1: "resetPassword (reset_token rd) newSecret now s
           = (Failure ''Password must be at least 6 characters long'', s)"
    using assms by (simp add: resetPassword_def)
  have 2: "validateResetToken (reset_token rd) now s = (Valid (reset_email rd), s)"
    using assms by (simp add: validateResetToken_def)
  have 3: "fst (resetPassword (reset_token rd) secret later s)
             = Success ''Password reset successfully'' ()"
    if "later \<le> reset_expires rd" "6 \<le> length secret"
       "\<exists>u \<in> set (users s). user_id u = reset_userId rd" for later secret
  proof -
    have "findIndex (\<lambda>u. user_id u = reset_userId rd) (users s) \<noteq> - 1"
      using that(3) by (simp add: findIndex_none)
    then show ?thesis
      using assms(1) that(1,2)
      by (simp add: resetPassword_def updateUserProfile_def Let_def split: option.splits)
  qed
  show ?thesis using 1 2 3 by simp
qed

theorem resetPassword_short_secret_witness:
  "resetPassword ''2000k3j9x0q1z'' ''abc'' 3000 reset_pending
     = (Failure ''Password must be at least 6 characters long'', reset_pending)
   \<and> fst (resetPassword ''2000k3j9x0q1z'' ''abcdef'' 4000
            (snd (resetPassword ''2000k3j9x0q1z'' ''abc'' 3000 reset_pending)))
     = Success ''Password reset successfully'' ()"
proof -
  have a: "ls_passwordResetToken reset_pending = Some alice_token"
    by (simp add: reset_pending_def)
  have b: "(3000::int) \<le> reset_expires alice_token" by (simp add: alice_token_def)
  have c: "length ''abc'' < 6" by simp
  have d: "\<exists>u \<in> set (users reset_pending). user_id u = reset_userId alice_token"
    by (simp add: reset_pending_def directory_def alice_def alice_token_def)
  have e: "(4000::int) \<le> reset_expires alice_token \<and> 6 \<le> length ''abcdef''"
    by (simp add: alice_token_def)
  note T = resetPassword_short_secret [OF a b c]
  have 1: "resetPassword (reset_token alice_token) ''abc'' 3000 reset_pending
     = (Failure ''Password must be at least 6 characters long'', reset_pending)"
    using T by blast
  have 2: "fst (resetPassword (reset_token alice_token) ''abcdef'' 4000
            (snd (resetPassword (reset_token alice_token) ''abc'' 3000 reset_pending)))
     = Success ''Password reset successfully'' ()"
    using T d e by blast
  have t: "reset_token alice_token = ''2000k3j9x0q1z''" by (simp add: alice_token_def)
  show ?thesis using 1 2 unfolding t by simp
qed

section \<open>Logout and the remembered email\<close>

text \<open>
  C10. \<open>logout\<close> removes the stored \<open>currentUser\<close> and \<open>rememberMe\<close> keys and leaves
  the \<open>rememberedUser\<close> key as it is. So the email that a successful \<open>login\<close> stored
  under \<open>rememberedUser\<close> (the remember-me flag being set) is still stored after
  \<open>logout\<close>.
\<close>

theorem logout_keeps_rememberedUser:
  "currentUser (logout s) = None \<and> ls_currentUser (logout s) = None
   \<and> ls_rememberMe (logout s) = None
   \<and> ls_rememberedUser (logout s) = ls_rememberedUser s
   \<and> (\<forall>email password now s0 m cu.
         ls_rememberMe s0 = Some ''true'' \<and> login email password now s0 = (Success m cu, s) \<longrightarrow>
         ls_rememberedUser s = Some email \<and> ls_rememberedUser (logout s) = Some email)"
  by (auto simp: logout_def login_def Let_def split: option.splits)

theorem logout_keeps_rememberedUser_witness:
  "ls_rememberMe remembering = Some ''true''
   \<and> login ''Alice@Example.COM'' ''secret1'' 2000 remembering
       = (Success ''Login successful'' alice_session, logged_in)
   \<and> ls_rememberedUser logged_in = Some ''Alice@Example.COM''
   \<and> ls_rememberedUser (logout logged_in) = Some ''Alice@Example.COM''
   \<and> ls_currentUser (logout logged_in) = None \<and> ls_rememberMe (logout logged_in) = None"
proof -
  have r: "ls_rememberMe remembering = Some ''true''" by (simp add: remembering_def)
  have "ls_rememberedUser logged_in = Some ''Alice@Example.COM''
        \<and> ls_rememberedUser (logout logged_in) = Some ''Alice@Example.COM''
        \<and> ls_currentUser (logout logged_in) = None \<and> ls_rememberMe (logout logged_in) = None"
    using logout_keeps_rememberedUser [of logged_in] r login_alice by blast
  then show ?thesis using r login_alice by simp
qed

section \<open>The session after an address is added\<close>





section \<open>The reset flow\<close>

lemma merge_user_password:
  "merge_user u (password_update p) = u\<lparr>user_password := p\<rparr>"
  by (simp add: merge_user_def password_update_def)

lemma updateUserProfile_users:
  assumes "findIndex (\<lambda>u. user_id u = userId) (users s) = int i"
  shows "\<exists>s'. updateUserProfile userId upd s = (Success ''Profile updated successfully'' (), s')
           \<and> users s' = (users s)[i := merge_user (users s ! i) upd]
           \<and> ls_users s' = Some (users s')
           \<and> ls_passwordResetToken s' = ls_passwordResetToken s"
  using assms
  by (auto simp: updateUserProfile_def Let_def saveUsers_def split: option.splits)

text \<open>
  C2 (as amended). Let the identity at index \<open>i\<close> be the first of the directory whose email
  is the given one up to letter case, and let no earlier identity have its identifier. Then
  \<open>requestPasswordReset\<close> succeeds with a token, and \<open>resetPassword\<close> with that token and a
  new secret of at least 6 characters, not later than 15 minutes after the request, succeeds,
  sets the secret of that identity (and of no other) to the new secret, in the directory in
  memory and in the directory stored under the \<open>users\<close> key, and deletes the token
  record. After that, every \<open>resetPassword\<close> with the same token fails with
  \<open>Invalid or expired reset token\<close> and changes nothing.
\<close>

theorem reset_flow:
  assumes "i < length (users s)"
    and "toLowerCase (user_email (users s ! i)) = toLowerCase email"
    and "\<forall>j<i. toLowerCase (user_email (users s ! j)) \<noteq> toLowerCase email"
    and "\<forall>j<i. user_id (users s ! j) \<noteq> user_id (users s ! i)"
    and "6 \<le> length newSecret"
    and "now2 \<le> now1 + 15 * 60 * 1000"
  shows "\<exists>m token s1 s2.
           requestPasswordReset email now1 rnd s = (Success m token, s1)
           \<and> resetPassword token newSecret now2 s1 = (Success ''Password reset successfully'' (), s2)
           \<and> users s2 = (users s)[i := (users s ! i)\<lparr>user_password := newSecret\<rparr>]
           \<and> ls_users s2 = Some ((users s)[i := (users s ! i)\<lparr>user_password := newSecret\<rparr>])
           \<and> ls_passwordResetToken s2 = None
           \<and> (\<forall>secret now3. resetPassword token secret now3 s2
                  = (Failure ''Invalid or expired reset token'', s2))"
proof -
  define token where "token = toString now1 @ rnd"
  define rd where "rd = \<lparr>reset_email = email, reset_token = token,
                     reset_expires = now1 + 15 * 60 * 1000, reset_userId = user_id (users s ! i)\<rparr>"
  define s1 where "s1 = s\<lparr>ls_passwordResetToken := Some rd\<rparr>"
  have f: "find (\<lambda>u. toLowerCase (user_email u) = toLowerCase email) (users s) = Some (users s ! i)"
    by (rule find_first) (use assms in auto)
  have req: "requestPasswordReset email now1 rnd s =
               (Success ''Password reset instructions have been sent to your email'' token, s1)"
    using f by (simp add: requestPasswordReset_def Let_def token_def rd_def s1_def)
  have fi: "findIndex (\<lambda>u. user_id u = user_id (users s ! i)) (users s1) = int i"
    unfolding s1_def by simp (rule findIndex_first, use assms in auto)
  from updateUserProfile_users [OF fi, of "password_update newSecret"] obtain s' where
    up: "updateUserProfile (user_id (users s ! i)) (password_update newSecret) s1
           = (Success ''Profile updated successfully'' (), s')"
    and us: "users s' = (users s1)[i := merge_user (users s1 ! i) (password_update newSecret)]"
    and ls: "ls_users s' = Some (users s')"
    by blast
  define s2 where "s2 = s'\<lparr>ls_passwordResetToken := None\<rparr>"
  have tok: "ls_passwordResetToken s1 = Some rd" by (simp add: s1_def)
  have rst: "resetPassword token newSecret now2 s1 = (Success ''Password reset successfully'' (), s2)"
    using assms(5,6) up
    by (simp add: resetPassword_def tok rd_def s2_def)
  have u2: "users s2 = (users s)[i := (users s ! i)\<lparr>user_password := newSecret\<rparr>]"
    using us by (simp add: s2_def s1_def merge_user_password)
  have l2: "ls_users s2 = Some ((users s)[i := (users s ! i)\<lparr>user_password := newSecret\<rparr>])"
    using ls u2 by (simp add: s2_def)
  have t2: "ls_passwordResetToken s2 = None" by (simp add: s2_def)
  have again: "resetPassword token secret now3 s2 = (Failure ''Invalid or expired reset token'', s2)"
    for secret now3
    by (simp add: resetPassword_def t2)
  show ?thesis using req rst u2 l2 t2 again by blast
qed

theorem reset_flow_witness:
  "\<exists>m token s1 s2.
     requestPasswordReset ''Alice@Example.COM'' 2000 ''k3j9x0q1z'' directory = (Success m token, s1)
     \<and> resetPassword token ''newsecret'' 3000 s1 = (Success ''Password reset successfully'' (), s2)
     \<and> users s2 = [alice\<lparr>user_password := ''newsecret''\<rparr>]
     \<and> ls_users s2 = Some [alice\<lparr>user_password := ''newsecret''\<rparr>]
     \<and> ls_passwordResetToken s2 = None
     \<and> (\<forall>secret now3. resetPassword token secret now3 s2
            = (Failure ''Invalid or expired reset token'', s2))"
proof -
  have u: "users directory = [alice]" by (simp add: directory_def fresh_def)
  have a: "0 < length (users directory)" by (simp add: u)
  have b: "toLowerCase (user_email (users directory ! 0)) = toLowerCase ''Alice@Example.COM''"
    by (simp add: u alice_def lower_alice)
  have c: "\<forall>j<0. toLowerCase (user_email (users directory ! j)) \<noteq> toLowerCase ''Alice@Example.COM''"
    by simp
  have d: "\<forall>j<0. user_id (users directory ! j) \<noteq> user_id (users directory ! 0)" by simp
  have e: "6 \<le> length ''newsecret''" by simp
  have f: "(3000::int) \<le> 2000 + 15 * 60 * 1000" by simp
  from reset_flow [OF a b c d e f, of "''k3j9x0q1z''"] show ?thesis by (simp add: u)
qed

text \<open>
  The claim as stated, for every identity with a registered email, fails when two identities
  share an identifier, which \<open>register\<close> produces when it runs twice in one millisecond:
  the reset requested for Carol's email changes Alice's secret and leaves Carol's. It also
  fails for the second of two identities with one email: the reset requested with the email
  of Erin, which is Alice's too, changes Alice's secret and leaves Erin's.
\<close>

theorem reset_flow_counterexample:
  "users (snd (register carol_data 1000 (snd (register alice_data 1000 fresh)))) = users twins
   \<and> users twins = [alice, carol]
   \<and> fst (requestPasswordReset ''carol@example.com'' 2000 ''k3j9x0q1z'' twins)
       = Success ''Password reset instructions have been sent to your email'' ''2000k3j9x0q1z''
   \<and> fst (resetPassword ''2000k3j9x0q1z'' ''newsecret'' 3000
            (snd (requestPasswordReset ''carol@example.com'' 2000 ''k3j9x0q1z'' twins)))
       = Success ''Password reset successfully'' ()
   \<and> users (snd (resetPassword ''2000k3j9x0q1z'' ''newsecret'' 3000
            (snd (requestPasswordReset ''carol@example.com'' 2000 ''k3j9x0q1z'' twins))))
       = [alice\<lparr>user_password := ''newsecret''\<rparr>, carol]
   \<and> user_password carol = ''secret2''
   \<and> users namesakes = [alice, erin\<lparr>user_email := ''alice@example.com''\<rparr>]
   \<and> fst (resetPassword ''4000k3j9x0q1z'' ''newsecret'' 5000
            (snd (requestPasswordReset ''alice@example.com'' 4000 ''k3j9x0q1z'' namesakes)))
       = Success ''Password reset successfully'' ()
   \<and> users (snd (resetPassword ''4000k3j9x0q1z'' ''newsecret'' 5000
            (snd (requestPasswordReset ''alice@example.com'' 4000 ''k3j9x0q1z'' namesakes))))
       = [alice\<lparr>user_password := ''newsecret''\<rparr>, erin\<lparr>user_email := ''alice@example.com''\<rparr>]
   \<and> user_password (erin\<lparr>user_email := ''alice@example.com''\<rparr>) = ''secret3''"
proof (intro conjI)
  show "users (snd (register carol_data 1000 (snd (register alice_data 1000 fresh)))) = users twins"
    by code_simp
  show "users twins = [alice, carol]"
    by (simp add: twins_def fresh_def)
  show "fst (requestPasswordReset ''carol@example.com'' 2000 ''k3j9x0q1z'' twins)
       = Success ''Password reset instructions have been sent to your email'' ''2000k3j9x0q1z''"
    by code_simp
  show "fst (resetPassword ''2000k3j9x0q1z'' ''newsecret'' 3000
            (snd (requestPasswordReset ''carol@example.com'' 2000 ''k3j9x0q1z'' twins)))
       = Success ''Password reset successfully'' ()"
    by code_simp
  show "users (snd (resetPassword ''2000k3j9x0q1z'' ''newsecret'' 3000
            (snd (requestPasswordReset ''carol@example.com'' 2000 ''k3j9x0q1z'' twins))))
       = [alice\<lparr>user_password := ''newsecret''\<rparr>, carol]"
    by code_simp
  show "user_password carol = ''secret2''"
    by (simp add: carol_def)
  show "users namesakes = [alice, erin\<lparr>user_email := ''alice@example.com''\<rparr>]"
    by code_simp
  show "fst (resetPassword ''4000k3j9x0q1z'' ''newsecret'' 5000
            (snd (requestPasswordReset ''alice@example.com'' 4000 ''k3j9x0q1z'' namesakes)))
       = Success ''Password reset successfully'' ()"
    by code_simp
  show "users (snd (resetPassword ''4000k3j9x0q1z'' ''newsecret'' 5000
            (snd (requestPasswordReset ''alice@example.com'' 4000 ''k3j9x0q1z'' namesakes))))
       = [alice\<lparr>user_password := ''newsecret''\<rparr>, erin\<lparr>user_email := ''alice@example.com''\<rparr>]"
    by code_simp
  show "user_password (erin\<lparr>user_email := ''alice@example.com''\<rparr>) = ''secret3''"
    by (simp add: erin_def)
qed

section \<open>The regular expressions\<close>

lemma test_Times:
  "test ((p, Times n) # r) s
     = (\<exists>a b. s = a @ b \<and> length a = n \<and> (\<forall>c \<in> set a. p c) \<and> test r b)"
proof (induction n arbitrary: s)
  case 0
  show ?case by simp
next
  case (Suc n)
  show ?case
  proof (cases s)
    case Nil
    then show ?thesis by simp
  next
    case (Cons c s')
    show ?thesis
    proof
      assume "test ((p, Times (Suc n)) # r) s"
      then have "p c" and "test ((p, Times n) # r) s'" using Cons by simp_all
      then obtain a b where "s' = a @ b" "length a = n" "\<forall>c \<in> set a. p c" "test r b"
        using Suc.IH by blast
      then have "s = (c # a) @ b \<and> length (c # a) = Suc n \<and> (\<forall>x \<in> set (c # a). p x) \<and> test r b"
        using Cons \<open>p c\<close> by simp
      then show "\<exists>a b. s = a @ b \<and> length a = Suc n \<and> (\<forall>c \<in> set a. p c) \<and> test r b"
        by blast
    next
      assume "\<exists>a b. s = a @ b \<and> length a = Suc n \<and> (\<forall>c \<in> set a. p c) \<and> test r b"
      then obtain a b where ab: "s = a @ b" "length a = Suc n" "\<forall>c \<in> set a. p c" "test r b"
        by blast
      then obtain a' where a: "a = c # a'" using Cons by (cases a) auto
      then have "s' = a' @ b" "length a' = n" "\<forall>c \<in> set a'. p c" "p c"
        using ab Cons by simp_all
      then have "test ((p, Times n) # r) s'" using Suc.IH ab(4) by blast
      then show "test ((p, Times (Suc n)) # r) s" using Cons \<open>p c\<close> by simp
    qed
  qed
qed

lemma test_OneOrMore:
  "test ((p, OneOrMore) # r) s
     = (\<exists>a b. s = a @ b \<and> a \<noteq> [] \<and> (\<forall>c \<in> set a. p c) \<and> test r b)"
proof (induction s)
  case Nil
  show ?case by simp
next
  case (Cons c s)
  show ?case
  proof
    assume "test ((p, OneOrMore) # r) (c # s)"
    then have pc: "p c" and d: "test ((p, OneOrMore) # r) s \<or> test r s" by simp_all
    from d show "\<exists>a b. c # s = a @ b \<and> a \<noteq> [] \<and> (\<forall>c \<in> set a. p c) \<and> test r b"
    proof
      assume "test ((p, OneOrMore) # r) s"
      then obtain a b where "s = a @ b" "\<forall>c \<in> set a. p c" "test r b"
        using Cons.IH by blast
      then have "c # s = (c # a) @ b \<and> c # a \<noteq> [] \<and> (\<forall>x \<in> set (c # a). p x) \<and> test r b"
        using pc by simp
      then show ?thesis by blast
    next
      assume "test r s"
      then have "c # s = [c] @ s \<and> [c] \<noteq> [] \<and> (\<forall>x \<in> set [c]. p x) \<and> test r s"
        using pc by simp
      then show ?thesis by blast
    qed
  next
    assume "\<exists>a b. c # s = a @ b \<and> a \<noteq> [] \<and> (\<forall>c \<in> set a. p c) \<and> test r b"
    then obtain a b where ab: "c # s = a @ b" "a \<noteq> []" "\<forall>c \<in> set a. p c" "test r b"
      by blast
    then obtain a' where a: "a = c # a'" by (cases a) auto
    then have s: "s = a' @ b" and pc: "p c" and pa: "\<forall>c \<in> set a'. p c" using ab by simp_all
    show "test ((p, OneOrMore) # r) (c # s)"
    proof (cases "a' = []")
      case True
      then show ?thesis using s pc ab(4) by simp
    next
      case False
      then have "test ((p, OneOrMore) # r) s" using Cons.IH s pa ab(4) by blast
      then show ?thesis using pc by simp
    qed
  qed
qed

lemma test_single:
  "test [(p, Times n)] s = (length s = n \<and> (\<forall>c \<in> set s. p c))"
  unfolding test_Times by auto

lemma test_once:
  "test ((p, Times 1) # r) s = (\<exists>x b. s = x # b \<and> p x \<and> test r b)"
  by (cases s) simp_all

lemma test_rest:
  "test [(p, OneOrMore)] s = (s \<noteq> [] \<and> (\<forall>c \<in> set s. p c))"
  unfolding test_OneOrMore by auto

lemma isValidEmail_shape:
  "isValidEmail e =
     (\<exists>local domain tld.
        e = local @ ''@'' @ domain @ ''.'' @ tld
        \<and> local \<noteq> [] \<and> domain \<noteq> [] \<and> tld \<noteq> []
        \<and> (\<forall>c \<in> set (local @ domain @ tld). \<not> isSpace c \<and> c \<noteq> CHR ''@''))"
proof
  assume "isValidEmail e"
  then obtain a b where 1: "e = a @ b" "a \<noteq> []" "\<forall>c \<in> set a. notSpaceAt c"
    and "test [(\<lambda>c. c = CHR ''@'', Times 1), (notSpaceAt, OneOrMore),
               (\<lambda>c. c = CHR ''.'', Times 1), (notSpaceAt, OneOrMore)] b"
    unfolding isValidEmail_def emailRegex_def test_OneOrMore [of notSpaceAt _ e] by blast
  then obtain b' where 2: "b = CHR ''@'' # b'"
    and "test [(notSpaceAt, OneOrMore), (\<lambda>c. c = CHR ''.'', Times 1), (notSpaceAt, OneOrMore)] b'"
    unfolding test_once by blast
  then obtain c d where 3: "b' = c @ d" "c \<noteq> []" "\<forall>x \<in> set c. notSpaceAt x"
    and "test [(\<lambda>c. c = CHR ''.'', Times 1), (notSpaceAt, OneOrMore)] d"
    unfolding test_OneOrMore [of notSpaceAt _ b'] by blast
  then obtain d' where 4: "d = CHR ''.'' # d'" and "test [(notSpaceAt, OneOrMore)] d'"
    unfolding test_once by blast
  then have 5: "d' \<noteq> []" "\<forall>x \<in> set d'. notSpaceAt x"
    unfolding test_rest by simp_all
  have eq: "e = a @ ''@'' @ c @ ''.'' @ d'"
    using 1(1) 2 3(1) 4 by simp
  have cl: "\<forall>x \<in> set (a @ c @ d'). \<not> isSpace x \<and> x \<noteq> CHR ''@''"
    using 1(3) 3(3) 5(2) by (auto simp: notSpaceAt_def)
  show "\<exists>local domain tld.
        e = local @ ''@'' @ domain @ ''.'' @ tld
        \<and> local \<noteq> [] \<and> domain \<noteq> [] \<and> tld \<noteq> []
        \<and> (\<forall>c \<in> set (local @ domain @ tld). \<not> isSpace c \<and> c \<noteq> CHR ''@'')"
    using eq cl 1(2) 3(2) 5(1)
    by (intro exI [of _ a] exI [of _ c] exI [of _ d'] conjI)
next
  assume "\<exists>local domain tld.
        e = local @ ''@'' @ domain @ ''.'' @ tld
        \<and> local \<noteq> [] \<and> domain \<noteq> [] \<and> tld \<noteq> []
        \<and> (\<forall>c \<in> set (local @ domain @ tld). \<not> isSpace c \<and> c \<noteq> CHR ''@'')"
  then obtain a c d where e: "e = a @ ''@'' @ c @ ''.'' @ d"
    and ne: "a \<noteq> []" "c \<noteq> []" "d \<noteq> []"
    and raw: "\<forall>x \<in> set (a @ c @ d). \<not> isSpace x \<and> x \<noteq> CHR ''@''"
    by (elim exE conjE) (rule that)
  have cls: "\<forall>x \<in> set a. notSpaceAt x" "\<forall>x \<in> set c. notSpaceAt x" "\<forall>x \<in> set d. notSpaceAt x"
    using raw by (auto simp: notSpaceAt_def)
  have t5: "test [(notSpaceAt, OneOrMore)] d"
    unfolding test_rest using ne cls by simp
  have t4: "test [(\<lambda>c. c = CHR ''.'', Times 1), (notSpaceAt, OneOrMore)] (''.'' @ d)"
    unfolding test_once using t5 by simp
  have t3: "test [(notSpaceAt, OneOrMore), (\<lambda>c. c = CHR ''.'', Times 1), (notSpaceAt, OneOrMore)]
              (c @ ''.'' @ d)"
    unfolding test_OneOrMore [of notSpaceAt _ "c @ ''.'' @ d"] using t4 ne cls by blast
  have t2: "test [(\<lambda>c. c = CHR ''@'', Times 1), (notSpaceAt, OneOrMore),
               (\<lambda>c. c = CHR ''.'', Times 1), (notSpaceAt, OneOrMore)] (''@'' @ c @ ''.'' @ d)"
    unfolding test_once using t3 by simp
  have "test emailRegex (a @ ''@'' @ c @ ''.'' @ d)"
    unfolding emailRegex_def test_OneOrMore [of notSpaceAt _ "a @ ''@'' @ c @ ''.'' @ d"]
    using t2 ne cls by blast
  then show "isValidEmail e" by (simp add: isValidEmail_def e)
qed

lemma isValidPhone_shape:
  "isValidPhone phone =
     (let ds = filter isDigit phone in length ds = 10 \<and> hd ds \<in> set ''6789'')"
proof -
  define ds where "ds = filter isDigit phone"
  have all: "\<forall>c \<in> set ds. isDigit c" by (simp add: ds_def)
  have "test phoneRegex ds = (length ds = 10 \<and> hd ds \<in> set ''6789'')"
  proof (cases ds)
    case Nil
    then show ?thesis by (simp add: phoneRegex_def test_once)
  next
    case (Cons x b)
    then have "\<forall>c \<in> set b. isDigit c" using all by simp
    then have "test phoneRegex ds = (x \<in> set ''6789'' \<and> length b = 9)"
      unfolding phoneRegex_def test_once test_single using Cons by auto
    then show ?thesis using Cons by auto
  qed
  then show ?thesis by (simp add: isValidPhone_def ds_def Let_def)
qed

lemma trim_Nil: "trim [] = []"
  by (simp add: trim_def)

section \<open>Validation of a registration\<close>

text \<open>
  C6. \<open>validateRegistrationData\<close> is invalid exactly when one of the five rules is broken,
  with the message of the first broken rule in the order name, email, phone, secret,
  confirmation; \<open>register\<close> then fails with that message and leaves the state unchanged.
\<close>

theorem validation_first_failure:
  "validateRegistrationData d = (case first_failure d of Some m \<Rightarrow> Invalid m | None \<Rightarrow> Valid ())
   \<and> (\<forall>m. first_failure d = Some m \<longrightarrow> register d now s = (Failure m, s))"
proof -
  have n: "(reg_name d = [] \<or> length (trim (reg_name d)) < 2) = (\<not> name_rule d)"
    by (auto simp: name_rule_def trim_Nil)
  have e1: "isValidEmail (reg_email d) = email_rule d"
    unfolding isValidEmail_shape email_rule_def by (rule refl)
  have e2: "\<not> isValidEmail []"
    by (simp add: isValidEmail_def emailRegex_def)
  have e: "(reg_email d = [] \<or> \<not> isValidEmail (reg_email d)) = (\<not> email_rule d)"
    using e1 e2 by (cases "reg_email d = []") auto
  have p1: "isValidPhone (reg_phone d) = phone_rule d"
    unfolding isValidPhone_shape phone_rule_def by (rule refl)
  have p2: "\<not> isValidPhone []"
    by (simp add: isValidPhone_def phoneRegex_def)
  have p: "(reg_phone d = [] \<or> \<not> isValidPhone (reg_phone d)) = (\<not> phone_rule d)"
    using p1 p2 by (cases "reg_phone d = []") auto
  have w: "(reg_password d = [] \<or> length (reg_password d) < 6) = (\<not> secret_rule d)"
    by (auto simp: secret_rule_def)
  have c: "(reg_password d \<noteq> reg_confirmPassword d) = (\<not> confirm_rule d)"
    by (auto simp: confirm_rule_def)
  have v: "validateRegistrationData d
             = (case first_failure d of Some m \<Rightarrow> Invalid m | None \<Rightarrow> Valid ())"
    unfolding validateRegistrationData_def n e p w c first_failure_def by simp
  have "register d now s = (Failure m, s)" if "first_failure d = Some m" for m
    using that v by (simp add: register_def)
  with v show ?thesis by blast
qed

theorem validation_first_failure_witness:
  "validateRegistrationData dave_data = Invalid ''Please enter a valid phone number''
   \<and> register dave_data 5000 directory
       = (Failure ''Please enter a valid phone number'', directory)"
proof -
  have n: "name_rule dave_data"
    by (simp add: name_rule_def dave_data_def trim_def isSpace_def)
  have "reg_email dave_data = ''dave'' @ ''@'' @ ''example'' @ ''.'' @ ''com''
        \<and> ''dave'' \<noteq> [] \<and> ''example'' \<noteq> [] \<and> ''com'' \<noteq> []
        \<and> (\<forall>c \<in> set (''dave'' @ ''example'' @ ''com''). \<not> isSpace c \<and> c \<noteq> CHR ''@'')"
    by (simp add: dave_data_def isSpace_def)
  then have e: "email_rule dave_data"
    unfolding email_rule_def
    by (intro exI [of _ "''dave''"] exI [of _ "''example''"] exI [of _ "''com''"])
  have p: "\<not> phone_rule dave_data"
    by (simp add: phone_rule_def dave_data_def isDigit_def)
  have f: "first_failure dave_data = Some ''Please enter a valid phone number''"
    by (simp add: first_failure_def n e p)
  show ?thesis
    using validation_first_failure [of dave_data 5000 directory] f by simp
qed

section \<open>The cart\<close>













lemma isLoggedIn_true:
  assumes "fst (isLoggedIn t s)"
  shows "isLoggedIn t s = (True, s) \<and> (\<exists>cu. currentUser s = Some cu)"
  using assms
  by (auto simp: isLoggedIn_def validateSession_def Let_def split: option.splits if_splits)

lemma isLoggedIn_false:
  assumes "\<not> fst (isLoggedIn t s)"
  shows "currentUser (snd (isLoggedIn t s)) = None
         \<and> ls_cart (snd (isLoggedIn t s)) = ls_cart s
         \<and> ls_cart_user (snd (isLoggedIn t s)) = ls_cart_user s"
  using assms
  by (auto simp: isLoggedIn_def validateSession_def logout_def Let_def
           split: option.splits if_splits)



lemma getUserCart_logged:
  assumes "hasAuth" and "fst (isLoggedIn t s)" and "currentUser s = Some cu"
  shows "getUserCart hasAuth t s
           = ((case ls_cart_user s (session_id cu) of Some c \<Rightarrow> c | None \<Rightarrow> []), s)"
proof -
  have "isLoggedIn t s = (True, s)" using isLoggedIn_true [OF assms(2)] by simp
  then show ?thesis using assms(1,3) by (simp add: getUserCart_def)
qed


lemma getUserCart_anonymous:
  assumes "\<not> (hasAuth \<and> fst (isLoggedIn t s))"
  shows "fst (getUserCart hasAuth t s) = (case ls_cart s of Some c \<Rightarrow> c | None \<Rightarrow> [])
         \<and> snd (getUserCart hasAuth t s) = (if hasAuth then snd (isLoggedIn t s) else s)"
proof (cases hasAuth)
  case False
  then show ?thesis by (simp add: getUserCart_def)
next
  case True
  then have f: "\<not> fst (isLoggedIn t s)" using assms by simp
  define s1 where "s1 = snd (isLoggedIn t s)"
  have e: "isLoggedIn t s = (False, s1)" using f by (simp add: prod_eq_iff s1_def)
  have n: "currentUser s1 = None" "ls_cart s1 = ls_cart s"
    using isLoggedIn_false [OF f] by (simp_all add: s1_def)
  show ?thesis using True by (simp add: getUserCart_def e n)
qed



lemma updateCartBadge_session:
  "currentUser (updateCartBadge hasAuth t s) = None
   \<or> updateCartBadge hasAuth t s = s"
proof (cases "hasAuth \<and> fst (isLoggedIn t s)")
  case True
  then obtain cu where "currentUser s = Some cu" using isLoggedIn_true by blast
  with True show ?thesis by (simp add: updateCartBadge_def getUserCart_logged)
next
  case False
  then show ?thesis
    using getUserCart_anonymous [OF False] isLoggedIn_false [of t s]
    by (auto simp: updateCartBadge_def)
qed










end
